theory Spec2Isabelle
  imports Complex_Main "HOL-Library.Product_Lexorder"
begin

section \<open>Data model\<close>

text \<open>
  Embedding of \<^verbatim>\<open>Pavement_GeneratorLabel.py\<close>. Python floats are read as real numbers:
  every arithmetic step is exact, and \<^verbatim>\<open>nan\<close>, \<^verbatim>\<open>inf\<close>, rounding and overflow are outside
  the model. The only arithmetic of the program is the subtraction that accumulates the
  depths; what is proved about node sets, numbering and lines is proved for every list of
  depths, however it was computed. A node is the tuple \<^verbatim>\<open>(x, y, 0.0)\<close>, a numbered node
  the tuple \<^verbatim>\<open>(nid, x, y, z)\<close>; the dictionary \<^verbatim>\<open>layers\<close> is a map from key strings to
  thicknesses.
\<close>

type_synonym node = "real \<times> real \<times> real"
type_synonym numbered_node = "int \<times> real \<times> real \<times> real"
type_synonym layers = "string \<rightharpoonup> real"

datatype error = KeyError string | OSError string

text \<open>
  A Python \<^verbatim>\<open>set\<close> is a duplicate-free list: \<open>set_add\<close> is \<^verbatim>\<open>set.add\<close>. The order of
  the list stands for the iteration order of the set, which Python leaves open; the
  results about numbering below are stated for every enumeration of the same elements.
\<close>

type_synonym 'a pyset = "'a list"

definition set_add :: "'a \<Rightarrow> 'a pyset \<Rightarrow> 'a pyset" where
  "set_add v s = (if v \<in> set s then s else s @ [v])"

section \<open>The grid builder: \<^verbatim>\<open>generate_pavement_nodes\<close>\<close>

definition X_COORDS :: "real list" where
  "X_COORDS = [0.0, 0.475, 0.725, 2.275, 2.525, 3.0]"

text \<open>\<^verbatim>\<open>layers[k]\<close>: a missing key raises \<^verbatim>\<open>KeyError\<close>.\<close>

definition getitem :: "layers \<Rightarrow> string \<Rightarrow> error + real" where
  "getitem layers k = (case layers k of None \<Rightarrow> Inl (KeyError k) | Some v \<Rightarrow> Inr v)"

text \<open>
  A list display \<^verbatim>\<open>[layers[k1], layers[k2], ...]\<close>: the subscriptions are evaluated from
  left to right and the first missing key raises.
\<close>

fun getitems :: "layers \<Rightarrow> string list \<Rightarrow> error + real list" where
  "getitems layers [] = Inr []"
| "getitems layers (k # ks) =
     (case getitem layers k of
        Inl e \<Rightarrow> Inl e
      | Inr v \<Rightarrow> (case getitems layers ks of Inl e \<Rightarrow> Inl e | Inr vs \<Rightarrow> Inr (v # vs)))"

text \<open>
  Lines 21--38: the keys read for each pavement type. The last branch is a plain
  \<^verbatim>\<open>else\<close>, so every string other than \<^verbatim>\<open>"Flexible"\<close> and \<^verbatim>\<open>"Rigid"\<close> takes it.
\<close>

definition layer_keys :: "string \<Rightarrow> string list" where
  "layer_keys pavement_type =
     (if pavement_type = ''Flexible'' then [''surface'', ''binder'', ''base'', ''subbase'']
      else if pavement_type = ''Rigid'' then [''rigid_slab'', ''rigid_subbase'']
      else [''asphalt'', ''ctb'', ''semirigid_subbase''])"

definition thicknesses :: "string \<Rightarrow> layers \<Rightarrow> error + real list" where
  "thicknesses pavement_type layers = getitems layers (layer_keys pavement_type)"

text \<open>
  Lines 40--43: the loop \<^verbatim>\<open>for t in thicknesses: current_y -= t; y_coords.append(current_y)\<close>,
  as a function of the two variables it updates.
\<close>

fun depth_loop :: "real list \<Rightarrow> real \<times> real list \<Rightarrow> real \<times> real list" where
  "depth_loop [] (current_y, y_coords) = (current_y, y_coords)"
| "depth_loop (t # ts) (current_y, y_coords) =
     depth_loop ts (current_y - t, y_coords @ [current_y - t])"

text \<open>Lines 19 and 40--47: \<^verbatim>\<open>y_coords\<close> once the subgrade has been added.\<close>

definition build_y_coords :: "real list \<Rightarrow> real list" where
  "build_y_coords ts =
     (case depth_loop ts (0.0, [0.0]) of
        (current_y, y_coords) \<Rightarrow> y_coords @ [current_y - 1.5])"

text \<open>Lines 49--53: the two nested loops that fill the set.\<close>

definition build_nodes :: "real list \<Rightarrow> node pyset" where
  "build_nodes y_coords =
     fold (\<lambda>y nodes. fold (\<lambda>x nodes. set_add (x, y, 0.0) nodes) X_COORDS nodes) y_coords []"

text \<open>Lines 56--59 and 61--64: the lines for plotting, each appended in loop order.\<close>

definition build_col_lines :: "real list \<Rightarrow> node list list" where
  "build_col_lines y_coords =
     fold (\<lambda>x col_lines. col_lines @ [map (\<lambda>y. (x, y, 0.0)) y_coords]) X_COORDS []"

definition build_row_lines :: "real list \<Rightarrow> node list list" where
  "build_row_lines y_coords =
     fold (\<lambda>y row_lines. row_lines @ [map (\<lambda>x. (x, y, 0.0)) X_COORDS]) y_coords []"

text \<open>The depth sequence \<^verbatim>\<open>y_coords\<close> of a call, or the error raised before it exists.\<close>

definition y_coords_of :: "string \<Rightarrow> layers \<Rightarrow> error + real list" where
  "y_coords_of pavement_type layers =
     (case thicknesses pavement_type layers of
        Inl e \<Rightarrow> Inl e
      | Inr ts \<Rightarrow> Inr (build_y_coords ts))"

definition generate_pavement_nodes ::
  "string \<Rightarrow> layers \<Rightarrow> error + (node pyset \<times> node list list \<times> node list list)" where
  "generate_pavement_nodes pavement_type layers =
     (case y_coords_of pavement_type layers of
        Inl e \<Rightarrow> Inl e
      | Inr y_coords \<Rightarrow>
          Inr (build_nodes y_coords, build_col_lines y_coords, build_row_lines y_coords))"

text \<open>The number of layers of a pavement type, as the specification counts them.\<close>

definition layer_count :: "string \<Rightarrow> nat" where
  "layer_count pavement_type =
     (if pavement_type = ''Flexible'' then 4 else if pavement_type = ''Rigid'' then 2 else 3)"

definition valid_type :: "string \<Rightarrow> bool" where
  "valid_type pavement_type \<longleftrightarrow>
     pavement_type = ''Flexible'' \<or> pavement_type = ''Rigid'' \<or> pavement_type = ''Semi-Rigid''"

section \<open>Numbering: lines 173--174 of \<^verbatim>\<open>on_generate\<close>\<close>

text \<open>
  The sort key \<^verbatim>\<open>lambda p: (-p[1], p[0])\<close>. Python compares the key tuples
  lexicographically, which is the order of pairs used here.
\<close>

definition node_key :: "node \<Rightarrow> real \<times> real" where
  "node_key p = (- fst (snd p), fst p)"

text \<open>
  \<^verbatim>\<open>sorted\<close> is a stable sort, as \<open>sort_key\<close> is; \<^verbatim>\<open>enumerate\<close> counts from 0 and the
  comprehension adds 1.
\<close>

definition number_nodes :: "node pyset \<Rightarrow> numbered_node list" where
  "number_nodes nodes =
     (let sorted_nodes = sort_key node_key nodes
      in map (\<lambda>(i, (x, y, z)). (int i + 1, x, y, z)) (enumerate 0 sorted_nodes))"


section \<open>The exporter: \<^verbatim>\<open>write_to_text\<close>\<close>

abbreviation newline :: char where
  "newline \<equiv> CHR 0x0A"

text \<open>\<^verbatim>\<open>str\<close> of a Python integer: decimal digits, with a minus sign when negative.\<close>

fun str_nat :: "nat \<Rightarrow> string" where
  "str_nat n =
     (if n < 10 then [char_of (48 + n)] else str_nat (n div 10) @ [char_of (48 + n mod 10)])"

declare str_nat.simps [simp del]

definition str_int :: "int \<Rightarrow> string" where
  "str_int i = (if i < 0 then CHR ''-'' # str_nat (nat (- i)) else str_nat (nat i))"

text \<open>
  One line \<^verbatim>\<open>f"N,{nid},{x},{y},{z}\n"\<close>. The text Python gives a float inside an
  f-string is the runtime's, not this program's: it is the parameter \<open>repr\<close>.
\<close>

definition node_line :: "(real \<Rightarrow> string) \<Rightarrow> numbered_node \<Rightarrow> string" where
  "node_line repr n =
     (case n of (nid, x, y, z) \<Rightarrow>
        ''N,'' @ str_int nid @ '','' @ repr x @ '','' @ repr y @ '','' @ repr z @ [newline])"

text \<open>
  The file system is a map from paths to contents. \<^verbatim>\<open>open(file_path, "w")\<close> raises
  \<^verbatim>\<open>OSError\<close> on a path that cannot be written; otherwise the file holds the header
  and one line per entry.
\<close>

type_synonym files = "string \<rightharpoonup> string"

definition write_to_text ::
  "(string \<Rightarrow> bool) \<Rightarrow> (real \<Rightarrow> string) \<Rightarrow> string \<Rightarrow> numbered_node list \<Rightarrow> files \<Rightarrow> error + files"
  where
  "write_to_text writable repr file_path nodes_list fs =
     (if writable file_path
      then Inr (fs(file_path \<mapsto> ''/PREP7'' @ [newline] @ concat (map (node_line repr) nodes_list)))
      else Inl (OSError file_path))"

section \<open>The pipeline: \<^verbatim>\<open>on_generate\<close>\<close>

text \<open>
  What the function takes from outside: \<^verbatim>\<open>float\<close> on a string (\<open>None\<close> is its
  \<^verbatim>\<open>ValueError\<close>), the text of a float, the answer of the save dialog (empty when the user
  cancels) and which paths can be written.
\<close>

record env =
  float_of :: "string \<Rightarrow> real option"
  repr_float :: "real \<Rightarrow> string"
  asksaveasfilename :: string
  writable :: "string \<Rightarrow> bool"

text \<open>The Tk variables of the form.\<close>

record form =
  pavement_type_var :: string
  surface_var :: string
  binder_var :: string
  base_var :: string
  subbase_var :: string
  rigid_slab_var :: string
  rigid_subbase_var :: string
  asphalt_var :: string
  ctb_var :: string
  semirigid_subbase_var :: string

text \<open>What the user sees, in order: message boxes and the plot.\<close>

datatype event =
    ShowError string string
  | ShowInfo string string
  | Plot "node pyset" "node list list" "node list list"

datatype outcome = Returned | Raised error

text \<open>Lines 146--163: the keys of the dictionary display and the variables they read.\<close>

definition form_fields :: "string \<Rightarrow> form \<Rightarrow> (string \<times> string) list" where
  "form_fields ptype fm =
     (if ptype = ''Flexible'' then
        [(''surface'', surface_var fm), (''binder'', binder_var fm),
         (''base'', base_var fm), (''subbase'', subbase_var fm)]
      else if ptype = ''Rigid'' then
        [(''rigid_slab'', rigid_slab_var fm), (''rigid_subbase'', rigid_subbase_var fm)]
      else
        [(''asphalt'', asphalt_var fm), (''ctb'', ctb_var fm),
         (''semirigid_subbase'', semirigid_subbase_var fm)])"

text \<open>
  The values of the display are converted from left to right; the first \<^verbatim>\<open>ValueError\<close>
  ends the \<^verbatim>\<open>try\<close> block.
\<close>

fun float_items :: "(string \<Rightarrow> real option) \<Rightarrow> (string \<times> string) list \<Rightarrow> (string \<times> real) list option"
  where
  "float_items f [] = Some []"
| "float_items f ((k, s) # kss) =
     (case f s of
        None \<Rightarrow> None
      | Some v \<Rightarrow> (case float_items f kss of None \<Rightarrow> None | Some kvs \<Rightarrow> Some ((k, v) # kvs)))"

definition on_generate :: "env \<Rightarrow> form \<Rightarrow> files \<Rightarrow> outcome \<times> event list \<times> files" where
  "on_generate e fm fs =
     (let ptype = pavement_type_var fm in
      if ptype \<notin> {''Flexible'', ''Rigid'', ''Semi-Rigid''} then
        (Returned, [ShowError ''Error'' ''Please select a pavement type.''], fs)
      else
        (case float_items (float_of e) (form_fields ptype fm) of
           None \<Rightarrow> (Returned, [ShowError ''Error'' ''Please enter valid numeric thicknesses.''], fs)
         | Some items \<Rightarrow>
             (case generate_pavement_nodes ptype (map_of items) of
                Inl err \<Rightarrow> (Raised err, [], fs)
              | Inr (nodes, col_lines, row_lines) \<Rightarrow>
                  (let node_list = number_nodes nodes;
                       file_path = asksaveasfilename e
                   in if file_path = [] then
                        (Returned, [ShowInfo ''Canceled'' ''File save canceled.''], fs)
                      else
                        (case write_to_text (writable e) (repr_float e) file_path node_list fs of
                           Inl err \<Rightarrow> (Raised err, [], fs)
                         | Inr fs' \<Rightarrow>
                             (Returned,
                              [ShowInfo ''Success''
                                 (''Pavement nodes saved to:'' @ [newline] @ file_path),
                               Plot nodes col_lines row_lines],
                              fs'))))))"

section \<open>Reading an exported file back\<close>

text \<open>
  The program has no reader. The one below follows the format of the file: it is what
  "reading back" means in the round-trip property. \<open>split_on\<close> is \<^verbatim>\<open>str.split(sep)\<close>.
\<close>

fun split_on :: "char \<Rightarrow> string \<Rightarrow> string list" where
  "split_on c [] = [[]]"
| "split_on c (x # xs) =
     (if x = c then [] # split_on c xs
      else (case split_on c xs of [] \<Rightarrow> [[x]] | w # ws \<Rightarrow> (x # w) # ws))"

definition is_digit :: "char \<Rightarrow> bool" where
  "is_digit c \<longleftrightarrow> (48::nat) \<le> of_char c \<and> of_char c \<le> (57::nat)"

definition read_nat :: "string \<Rightarrow> nat option" where
  "read_nat s =
     (if s \<noteq> [] \<and> list_all is_digit s
      then Some (foldl (\<lambda>a c. 10 * a + (of_char c - 48)) 0 s) else None)"

definition read_int :: "string \<Rightarrow> int option" where
  "read_int s =
     (case s of
        [] \<Rightarrow> None
      | c # cs \<Rightarrow>
          if c = CHR ''-'' then map_option (\<lambda>n. - int n) (read_nat cs)
          else map_option int (read_nat s))"

definition read_node_line :: "(string \<Rightarrow> real option) \<Rightarrow> string \<Rightarrow> numbered_node option" where
  "read_node_line float_of_string line =
     (case split_on CHR '','' line of
        [tag, a, b, c, d] \<Rightarrow>
          (if tag = ''N'' then
             (case (read_int a, float_of_string b, float_of_string c, float_of_string d) of
                (Some nid, Some x, Some y, Some z) \<Rightarrow> Some (nid, x, y, z)
              | _ \<Rightarrow> None)
           else None)
      | _ \<Rightarrow> None)"

fun read_node_lines :: "(string \<Rightarrow> real option) \<Rightarrow> string list \<Rightarrow> numbered_node list option" where
  "read_node_lines f [] = Some []"
| "read_node_lines f (l # ls) =
     (case read_node_line f l of
        None \<Rightarrow> None
      | Some n \<Rightarrow> (case read_node_lines f ls of None \<Rightarrow> None | Some ns \<Rightarrow> Some (n # ns)))"

text \<open>
  A file is the header line and node lines, each ended by a newline, so the text after
  the last newline is empty.
\<close>

definition read_node_file :: "(string \<Rightarrow> real option) \<Rightarrow> string \<Rightarrow> numbered_node list option" where
  "read_node_file f text =
     (case split_on newline text of
        [] \<Rightarrow> None
      | header # rest \<Rightarrow>
          if header = ''/PREP7'' \<and> rest \<noteq> [] \<and> last rest = []
          then read_node_lines f (butlast rest) else None)"

text \<open>
  What the round trip needs from the runtime for one coordinate: converting the text of
  the float gives the float back, and the text has no comma and no line break. Python's
  shortest-repr formatting and \<^verbatim>\<open>float\<close> have this property on finite floats.
\<close>

definition float_text_ok :: "(string \<Rightarrow> real option) \<Rightarrow> (real \<Rightarrow> string) \<Rightarrow> real \<Rightarrow> bool" where
  "float_text_ok f repr c \<longleftrightarrow>
     f (repr c) = Some c \<and> CHR '','' \<notin> set (repr c) \<and> newline \<notin> set (repr c)"

definition coords_ok :: "(string \<Rightarrow> real option) \<Rightarrow> (real \<Rightarrow> string) \<Rightarrow> numbered_node \<Rightarrow> bool" where
  "coords_ok f repr n =
     (case n of (nid, x, y, z) \<Rightarrow>
        float_text_ok f repr x \<and> float_text_ok f repr y \<and> float_text_ok f repr z)"

section \<open>The depth sequence\<close>

text \<open>The values the loop appends when it starts from depth \<open>c\<close>.\<close>

fun running_depths :: "real \<Rightarrow> real list \<Rightarrow> real list" where
  "running_depths c [] = []"
| "running_depths c (t # ts) = (c - t) # running_depths (c - t) ts"

lemma depth_loop_eq:
  "depth_loop ts (c, ys) = (c - sum_list ts, ys @ running_depths c ts)"
  by (induction ts arbitrary: c ys) (simp_all add: algebra_simps)

lemma build_y_coords_eq:
  "build_y_coords ts = 0 # running_depths 0 ts @ [- sum_list ts - 1.5]"
  by (simp add: build_y_coords_def depth_loop_eq)

lemma length_running_depths [simp]: "length (running_depths c ts) = length ts"
  by (induction ts arbitrary: c) simp_all

lemma length_build_y_coords: "length (build_y_coords ts) = length ts + 2"
  by (simp add: build_y_coords_eq)





lemma length_layer_keys: "length (layer_keys p) = layer_count p"
  by (simp add: layer_keys_def layer_count_def)



section \<open>The node set and its numbering\<close>

lemma set_set_add [simp]: "set (set_add v s) = insert v (set s)"
  by (auto simp: set_add_def)

lemma distinct_set_add [simp]: "distinct (set_add v s) = distinct s"
  by (simp add: set_add_def)

lemma set_fold_set_add: "set (fold (\<lambda>x s. set_add (f x) s) xs s) = set s \<union> f ` set xs"
  by (induction xs arbitrary: s) auto

lemma distinct_fold_set_add: "distinct (fold (\<lambda>x s. set_add (f x) s) xs s) = distinct s"
  by (induction xs arbitrary: s) auto

lemma set_fold_rows:
  "set (fold (\<lambda>y s. fold (\<lambda>x s. set_add (g x y) s) xs s) ys s) =
     set s \<union> (\<lambda>(x, y). g x y) ` (set xs \<times> set ys)"
  by (induction ys arbitrary: s) (auto simp: set_fold_set_add)

lemma distinct_fold_rows:
  "distinct (fold (\<lambda>y s. fold (\<lambda>x s. set_add (g x y) s) xs s) ys s) = distinct s"
  by (induction ys arbitrary: s) (auto simp: distinct_fold_set_add)

lemma set_build_nodes:
  "set (build_nodes ys) = (\<lambda>(x, y). (x, y, 0)) ` (set X_COORDS \<times> set ys)"
  by (simp add: build_nodes_def set_fold_rows)

lemma distinct_build_nodes: "distinct (build_nodes ys)"
  by (simp add: build_nodes_def distinct_fold_rows)



lemma ids_upto: "map (\<lambda>i. int i + 1) [0..<n] = [1..int n]"
proof (induction n)
  case 0
  show ?case by simp
next
  case (Suc n)
  have "[1..int (Suc n)] = [1..int n] @ [int n + 1]"
    using upto_rec2 [of 1 "int n + 1"] by (simp add: add.commute)
  with Suc show ?case by simp
qed

lemma length_number_nodes: "length (number_nodes ns) = length ns"
  by (simp add: number_nodes_def)

lemma nth_number_nodes:
  assumes "i < length ns"
  shows "number_nodes ns ! i = (int i + 1, sort_key node_key ns ! i)"
proof -
  have "enumerate 0 (sort_key node_key ns) ! i = (i, sort_key node_key ns ! i)"
    using assms by (simp add: nth_enumerate_eq)
  then show ?thesis
    using assms by (simp add: number_nodes_def split_def)
qed

lemma number_nodes_ids: "map fst (number_nodes ns) = [1..int (length ns)]"
proof -
  have "map fst (number_nodes ns) = map (\<lambda>i. int i + 1) [0..<length ns]"
    by (rule nth_equalityI) (simp_all add: length_number_nodes nth_number_nodes)
  then show ?thesis
    by (simp add: ids_upto)
qed










lemma distinct_X_COORDS: "distinct X_COORDS"
  by (simp add: X_COORDS_def)

lemma length_X_COORDS: "length X_COORDS = 6"
  by (simp add: X_COORDS_def)

lemma length_build_nodes: "length (build_nodes ys) = 6 * card (set ys)"
proof -
  have "inj_on (\<lambda>(x, y). (x, y, 0::real)) (set X_COORDS \<times> set ys)"
    by (auto simp: inj_on_def)
  then have "card (set (build_nodes ys)) = card (set X_COORDS \<times> set ys)"
    by (simp add: set_build_nodes card_image)
  also have "\<dots> = 6 * card (set ys)"
    using distinct_card [OF distinct_X_COORDS] by (simp add: card_cartesian_product length_X_COORDS)
  finally show ?thesis
    by (simp add: distinct_card [OF distinct_build_nodes])
qed

lemma fold_append_map: "fold (\<lambda>x acc. acc @ [f x]) xs acc = acc @ map f xs"
  by (induction xs arbitrary: acc) simp_all

lemma build_col_lines_eq:
  "build_col_lines ys = map (\<lambda>x. map (\<lambda>y. (x, y, 0)) ys) X_COORDS"
  by (simp add: build_col_lines_def fold_append_map)

lemma build_row_lines_eq:
  "build_row_lines ys = map (\<lambda>y. map (\<lambda>x. (x, y, 0)) X_COORDS) ys"
  by (simp add: build_row_lines_def fold_append_map)

lemma length_getitems: "getitems layers ks = Inr ts \<Longrightarrow> length ts = length ks"
  by (induction ks arbitrary: ts) (auto split: sum.splits)

lemma generate_pavement_nodes_Inr:
  assumes "generate_pavement_nodes p layers = Inr (nodes, col_lines, row_lines)"
  obtains ts where "thicknesses p layers = Inr ts" "length ts = layer_count p"
    "y_coords_of p layers = Inr (build_y_coords ts)"
    "nodes = build_nodes (build_y_coords ts)"
    "col_lines = build_col_lines (build_y_coords ts)"
    "row_lines = build_row_lines (build_y_coords ts)"
proof -
  from assms obtain ts where ts: "thicknesses p layers = Inr ts"
    by (auto simp: generate_pavement_nodes_def y_coords_of_def split: sum.splits)
  then have "length ts = layer_count p"
    by (simp add: thicknesses_def length_getitems length_layer_keys)
  with ts assms that show ?thesis
    by (simp add: generate_pavement_nodes_def y_coords_of_def)
qed









lemma generate_rigid:
  "generate_pavement_nodes ''Rigid'' (map_of [(''rigid_slab'', a), (''rigid_subbase'', b)]) =
     Inr (build_nodes [0, 0 - a, 0 - a - b, 0 - a - b - 1.5],
          build_col_lines [0, 0 - a, 0 - a - b, 0 - a - b - 1.5],
          build_row_lines [0, 0 - a, 0 - a - b, 0 - a - b - 1.5])"
  by (simp add: generate_pavement_nodes_def y_coords_of_def thicknesses_def layer_keys_def
      getitem_def build_y_coords_def)



lemma length_build_nodes_le: "length (build_nodes ys) \<le> 6 * length ys"
  by (simp add: length_build_nodes card_length)

lemma length_build_nodes_eq_iff: "length (build_nodes ys) = 6 * length ys \<longleftrightarrow> distinct ys"
  using card_distinct [of ys] distinct_card [of ys] by (auto simp: length_build_nodes)







text \<open>
  C8. For every input on which the builder returns: there is one column line per
  station, the i-th holding the nodes of station i at every depth in the order of the
  depth sequence, and one row line per entry of the depth sequence, the j-th holding the
  nodes of depth j at every station in station order. The builder is a function of its
  input, so the same input gives the same lines.
\<close>

theorem column_and_row_lines:
  assumes "generate_pavement_nodes pavement_type layers = Inr (nodes, col_lines, row_lines)"
  shows "\<exists>y_coords.
           y_coords_of pavement_type layers = Inr y_coords \<and>
           length col_lines = length X_COORDS \<and>
           (\<forall>i < length X_COORDS. col_lines ! i = map (\<lambda>y. (X_COORDS ! i, y, 0.0)) y_coords) \<and>
           length row_lines = length y_coords \<and>
           (\<forall>j < length y_coords. row_lines ! j = map (\<lambda>x. (x, y_coords ! j, 0.0)) X_COORDS)"
proof -
  from assms obtain ts where ts:
    "y_coords_of pavement_type layers = Inr (build_y_coords ts)"
    "col_lines = build_col_lines (build_y_coords ts)"
    "row_lines = build_row_lines (build_y_coords ts)"
    by (rule generate_pavement_nodes_Inr)
  have "length col_lines = length X_COORDS" "length row_lines = length (build_y_coords ts)"
    by (simp_all add: ts build_col_lines_eq build_row_lines_eq)
  moreover have "\<forall>i < length X_COORDS.
      col_lines ! i = map (\<lambda>y. (X_COORDS ! i, y, 0.0)) (build_y_coords ts)"
    by (simp add: ts build_col_lines_eq)
  moreover have "\<forall>j < length (build_y_coords ts).
      row_lines ! j = map (\<lambda>x. (x, build_y_coords ts ! j, 0.0)) X_COORDS"
    by (simp add: ts build_row_lines_eq)
  ultimately show ?thesis
    using ts(1) by blast
qed

theorem column_and_row_lines_witness:
  "generate_pavement_nodes ''Rigid'' (map_of [(''rigid_slab'', 0.5), (''rigid_subbase'', 0.25)]) =
     Inr (build_nodes [0, -0.5, -0.75, -2.25], build_col_lines [0, -0.5, -0.75, -2.25],
          build_row_lines [0, -0.5, -0.75, -2.25]) \<and>
   (\<exists>y_coords.
      y_coords_of ''Rigid'' (map_of [(''rigid_slab'', 0.5), (''rigid_subbase'', 0.25)]) = Inr y_coords \<and>
      length (build_col_lines [0, -0.5, -0.75, -2.25]) = length X_COORDS \<and>
      (\<forall>i < length X_COORDS.
         build_col_lines [0, -0.5, -0.75, -2.25] ! i = map (\<lambda>y. (X_COORDS ! i, y, 0.0)) y_coords) \<and>
      length (build_row_lines [0, -0.5, -0.75, -2.25]) = length y_coords \<and>
      (\<forall>j < length y_coords.
         build_row_lines [0, -0.5, -0.75, -2.25] ! j = map (\<lambda>x. (x, y_coords ! j, 0.0)) X_COORDS))"
proof -
  have g: "generate_pavement_nodes ''Rigid'' (map_of [(''rigid_slab'', 0.5), (''rigid_subbase'', 0.25)]) =
     Inr (build_nodes [0, -0.5, -0.75, -2.25], build_col_lines [0, -0.5, -0.75, -2.25],
          build_row_lines [0, -0.5, -0.75, -2.25])"
    using generate_rigid [of "0.5" "0.25"] by simp
  from g column_and_row_lines [OF g] show ?thesis
    by (rule conjI)
qed

text \<open>
  C9. For every input on which the builder returns, whatever the sign of the
  thicknesses, and every order in which the node set is enumerated: the ids are exactly
  1, 2, ..., N with N the number of elements of the node set, so they have no gap and no
  repeat; N is at most 6 times (layer count + 2), and it is smaller for some inputs.
\<close>

theorem ids_contiguous_for_any_thickness:
  assumes "generate_pavement_nodes pavement_type layers = Inr (nodes, col_lines, row_lines)"
    and "set ns = set nodes" and "distinct ns"
  shows "map fst (number_nodes ns) = [1..int (card (set nodes))] \<and>
         distinct (map fst (number_nodes ns)) \<and>
         length (number_nodes ns) = card (set nodes) \<and>
         card (set nodes) \<le> 6 * (layer_count pavement_type + 2) \<and>
         (\<exists>p l n c r. generate_pavement_nodes p l = Inr (n, c, r) \<and>
                      card (set n) < 6 * (layer_count p + 2))"
proof -
  from assms(1) obtain ts where ts: "length ts = layer_count pavement_type"
    "nodes = build_nodes (build_y_coords ts)"
    by (rule generate_pavement_nodes_Inr)
  have len: "length ns = card (set nodes)"
    using assms(2,3) by (metis distinct_card)
  have ids: "map fst (number_nodes ns) = [1..int (card (set nodes))]"
    by (simp add: number_nodes_ids len)
  then have "distinct (map fst (number_nodes ns))"
    by simp
  moreover have "length (number_nodes ns) = card (set nodes)"
    by (simp add: length_number_nodes len)
  moreover have "card (set nodes) \<le> 6 * (layer_count pavement_type + 2)"
    using length_build_nodes_le [of "build_y_coords ts"] distinct_card [OF distinct_build_nodes, of "build_y_coords ts"]
    by (simp add: ts length_build_y_coords)
  moreover have "\<exists>p l n c r. generate_pavement_nodes p l = Inr (n, c, r) \<and>
                      card (set n) < 6 * (layer_count p + 2)"
  proof -
    have "card (set (build_nodes [0, 0 - 0, 0 - 0 - 0.5, 0 - 0 - 0.5 - 1.5])) = 6 * card (set [0, 0, -0.5, -2::real])"
      using length_build_nodes [of "[0, 0, -0.5, -2]"] distinct_card [OF distinct_build_nodes, of "[0, 0, -0.5, -2]"]
      by simp
    then have "card (set (build_nodes [0, 0 - 0, 0 - 0 - 0.5, 0 - 0 - 0.5 - 1.5])) < 6 * (layer_count ''Rigid'' + 2)"
      by (simp add: layer_count_def)
    with generate_rigid [of 0 "0.5"] show ?thesis
      by blast
  qed
  ultimately show ?thesis
    using ids by simp
qed


theorem ids_contiguous_for_any_thickness_witness:
  "generate_pavement_nodes ''Rigid'' (map_of [(''rigid_slab'', 0), (''rigid_subbase'', 0.5)]) =
     Inr (build_nodes [0, 0, -0.5, -2], build_col_lines [0, 0, -0.5, -2],
          build_row_lines [0, 0, -0.5, -2]) \<and>
   card (set (build_nodes [0, 0, -0.5, -2])) = 18 \<and>
   map fst (number_nodes (rev (build_nodes [0, 0, -0.5, -2]))) =
     [1..int (card (set (build_nodes [0, 0, -0.5, -2])))] \<and>
   distinct (map fst (number_nodes (rev (build_nodes [0, 0, -0.5, -2])))) \<and>
   length (number_nodes (rev (build_nodes [0, 0, -0.5, -2]))) = card (set (build_nodes [0, 0, -0.5, -2])) \<and>
   card (set (build_nodes [0, 0, -0.5, -2])) \<le> 6 * (layer_count ''Rigid'' + 2)"
proof -
  have g: "generate_pavement_nodes ''Rigid'' (map_of [(''rigid_slab'', 0), (''rigid_subbase'', 0.5)]) =
     Inr (build_nodes [0, 0, -0.5, -2], build_col_lines [0, 0, -0.5, -2],
          build_row_lines [0, 0, -0.5, -2])"
    using generate_rigid [of 0 "0.5"] by simp
  have s: "set (rev (build_nodes [0, 0, -0.5, -2])) = set (build_nodes [0, 0, -0.5, -2])"
    by simp
  have d: "distinct (rev (build_nodes [0, 0, -0.5, -2]))"
    by (simp add: distinct_build_nodes)
  have "card (set [0, 0, -0.5, -2 :: real]) = 3"
    by simp
  then have "length (build_nodes [0, 0, -0.5, -2]) = 18"
    unfolding length_build_nodes by simp
  then have c: "card (set (build_nodes [0, 0, -0.5, -2])) = 18"
    by (simp only: distinct_card [OF distinct_build_nodes])
  from g c ids_contiguous_for_any_thickness [OF g s d] show ?thesis
    by blast
qed

lemma length_concat_rows: "length (concat (map (\<lambda>y. map (f y) xs) ys)) = length xs * length ys"
  by (induction ys) simp_all

lemma length_concat_build_row_lines: "length (concat (build_row_lines ys)) = 6 * length ys"
  by (simp add: build_row_lines_eq length_concat_rows length_X_COORDS)

lemma length_concat_build_col_lines: "length (concat (build_col_lines ys)) = 6 * length ys"
  by (simp add: build_col_lines_eq X_COORDS_def)

lemma repeated_depth_repeated_row: "\<not> distinct ys \<Longrightarrow> \<not> distinct (build_row_lines ys)"
  by (simp add: build_row_lines_eq distinct_map)

lemma repeated_depth_fewer_nodes: "\<not> distinct ys \<Longrightarrow> length (build_nodes ys) < 6 * length ys"
  using length_build_nodes_le [of ys] length_build_nodes_eq_iff [of ys] by simp

text \<open>
  C10. For every input on which the builder returns, whatever the sign of the
  thicknesses: there are 6 column lines and (layer count + 2) row lines, one row per
  entry of the depth sequence as the loop produced it, repeated values included. So when
  two depths coincide, some row line occurs twice and the lines hold more points than
  the node set has elements.
\<close>

theorem lines_built_from_raw_depths:
  assumes "generate_pavement_nodes pavement_type layers = Inr (nodes, col_lines, row_lines)"
  shows "\<exists>y_coords.
           y_coords_of pavement_type layers = Inr y_coords \<and>
           length col_lines = 6 \<and>
           length row_lines = layer_count pavement_type + 2 \<and>
           row_lines = map (\<lambda>y. map (\<lambda>x. (x, y, 0.0)) X_COORDS) y_coords \<and>
           col_lines = map (\<lambda>x. map (\<lambda>y. (x, y, 0.0)) y_coords) X_COORDS \<and>
           length (concat row_lines) = 6 * (layer_count pavement_type + 2) \<and>
           length (concat col_lines) = 6 * (layer_count pavement_type + 2) \<and>
           length nodes \<le> 6 * (layer_count pavement_type + 2) \<and>
           (\<not> distinct y_coords \<longrightarrow>
              \<not> distinct row_lines \<and>
              length nodes < length (concat row_lines) \<and>
              length nodes < length (concat col_lines))"
proof -
  from assms obtain ts where ts: "length ts = layer_count pavement_type"
    "y_coords_of pavement_type layers = Inr (build_y_coords ts)"
    "nodes = build_nodes (build_y_coords ts)"
    "col_lines = build_col_lines (build_y_coords ts)"
    "row_lines = build_row_lines (build_y_coords ts)"
    by (rule generate_pavement_nodes_Inr)
  let ?ys = "build_y_coords ts"
  have n: "length ?ys = layer_count pavement_type + 2"
    by (simp add: length_build_y_coords ts(1))
  have "length col_lines = 6" "length row_lines = layer_count pavement_type + 2"
    by (simp_all add: ts(4,5) build_col_lines_eq build_row_lines_eq length_X_COORDS n)
  moreover have "row_lines = map (\<lambda>y. map (\<lambda>x. (x, y, 0.0)) X_COORDS) ?ys"
    "col_lines = map (\<lambda>x. map (\<lambda>y. (x, y, 0.0)) ?ys) X_COORDS"
    by (simp_all add: ts(4,5) build_col_lines_eq build_row_lines_eq)
  moreover have c: "length (concat row_lines) = 6 * (layer_count pavement_type + 2)"
    "length (concat col_lines) = 6 * (layer_count pavement_type + 2)"
    by (simp_all only: ts(4,5) length_concat_build_row_lines length_concat_build_col_lines n)
  moreover have "length nodes \<le> 6 * (layer_count pavement_type + 2)"
    using length_build_nodes_le [of ?ys] by (simp only: ts(3) n)
  moreover have "\<not> distinct ?ys \<longrightarrow>
      \<not> distinct row_lines \<and> length nodes < length (concat row_lines) \<and>
      length nodes < length (concat col_lines)"
    using repeated_depth_repeated_row [of ?ys] repeated_depth_fewer_nodes [of ?ys]
    by (simp only: c) (simp add: ts(3,5) n)
  ultimately show ?thesis
    using ts(2) by blast
qed

theorem lines_built_from_raw_depths_witness:
  "generate_pavement_nodes ''Rigid'' (map_of [(''rigid_slab'', 0), (''rigid_subbase'', 0.5)]) =
     Inr (build_nodes [0, 0, -0.5, -2], build_col_lines [0, 0, -0.5, -2],
          build_row_lines [0, 0, -0.5, -2]) \<and>
   y_coords_of ''Rigid'' (map_of [(''rigid_slab'', 0), (''rigid_subbase'', 0.5)]) = Inr [0, 0, -0.5, -2] \<and>
   length (build_col_lines [0, 0, -0.5, -2]) = 6 \<and>
   length (build_row_lines [0, 0, -0.5, -2]) = layer_count ''Rigid'' + 2 \<and>
   \<not> distinct (build_row_lines [0, 0, -0.5, -2]) \<and>
   length (build_nodes [0, 0, -0.5, -2]) < length (concat (build_row_lines [0, 0, -0.5, -2])) \<and>
   length (build_nodes [0, 0, -0.5, -2]) < length (concat (build_col_lines [0, 0, -0.5, -2]))"
proof -
  have g: "generate_pavement_nodes ''Rigid'' (map_of [(''rigid_slab'', 0), (''rigid_subbase'', 0.5)]) =
     Inr (build_nodes [0, 0, -0.5, -2], build_col_lines [0, 0, -0.5, -2],
          build_row_lines [0, 0, -0.5, -2])"
    using generate_rigid [of 0 "0.5"] by simp
  have y: "y_coords_of ''Rigid'' (map_of [(''rigid_slab'', 0), (''rigid_subbase'', 0.5)]) =
      Inr [0, 0, -0.5, -2]"
    by (simp add: y_coords_of_def thicknesses_def layer_keys_def getitem_def build_y_coords_def)
  have nd: "\<not> distinct [0, 0, -0.5, -2 :: real]"
    by simp
  from lines_built_from_raw_depths [OF g] y nd g show ?thesis
    by auto
qed

section \<open>The pipeline and its checks\<close>


lemma on_generate_invalid_type:
  "\<not> valid_type (pavement_type_var fm) \<Longrightarrow>
     on_generate e fm fs = (Returned, [ShowError ''Error'' ''Please select a pavement type.''], fs)"
  by (simp add: on_generate_def valid_type_def)


lemma layer_keys_else: "\<not> valid_type p \<Longrightarrow> layer_keys p = layer_keys ''Semi-Rigid''"
  by (simp add: valid_type_def layer_keys_def)

text \<open>
  C5 (amended). For every pavement type that is not one of the three tags, the pipeline
  stops at its first check with the notice "Please select a pavement type.": the builder
  is not called and no file is written. The builder itself has no check of the tag: such
  a value takes the last branch and is handled as Semi-Rigid.
\<close>

theorem invalid_type_rejected_by_pipeline:
  assumes "\<not> valid_type pavement_type"
  shows "(pavement_type_var fm = pavement_type \<longrightarrow>
            on_generate e fm fs =
              (Returned, [ShowError ''Error'' ''Please select a pavement type.''], fs)) \<and>
         generate_pavement_nodes pavement_type layers =
           generate_pavement_nodes ''Semi-Rigid'' layers"
  using assms
  by (simp add: on_generate_invalid_type generate_pavement_nodes_def y_coords_of_def
      thicknesses_def layer_keys_else)

theorem invalid_type_rejected_by_pipeline_witness:
  "\<not> valid_type ''Composite'' \<and>
   on_generate
     \<lparr>float_of = map_of [(''0.5'', 0.5)], repr_float = (\<lambda>r. ''0.5''),
      asksaveasfilename = ''nodes.txt'', writable = (\<lambda>p. True)\<rparr>
     \<lparr>pavement_type_var = ''Composite'', surface_var = ''0.5'', binder_var = ''0.5'',
      base_var = ''0.5'', subbase_var = ''0.5'', rigid_slab_var = ''0.5'',
      rigid_subbase_var = ''0.5'', asphalt_var = ''0.5'', ctb_var = ''0.5'',
      semirigid_subbase_var = ''0.5''\<rparr>
     Map.empty =
     (Returned, [ShowError ''Error'' ''Please select a pavement type.''], Map.empty) \<and>
   generate_pavement_nodes ''Composite''
       (map_of [(''asphalt'', 0.5), (''ctb'', 0.5), (''semirigid_subbase'', 0.5)]) =
     generate_pavement_nodes ''Semi-Rigid''
       (map_of [(''asphalt'', 0.5), (''ctb'', 0.5), (''semirigid_subbase'', 0.5)])"
proof -
  have v: "\<not> valid_type ''Composite''"
    by (simp add: valid_type_def)
  from v invalid_type_rejected_by_pipeline [OF v,
      of "\<lparr>pavement_type_var = ''Composite'', surface_var = ''0.5'', binder_var = ''0.5'',
      base_var = ''0.5'', subbase_var = ''0.5'', rigid_slab_var = ''0.5'',
      rigid_subbase_var = ''0.5'', asphalt_var = ''0.5'', ctb_var = ''0.5'',
      semirigid_subbase_var = ''0.5''\<rparr>"]
  show ?thesis
    by simp
qed

theorem build_accepts_unknown_type_counterexample:
  "\<not> valid_type ''Composite'' \<and>
   generate_pavement_nodes ''Composite''
       (map_of [(''asphalt'', 0.5), (''ctb'', 0.5), (''semirigid_subbase'', 0.5)]) =
     Inr (build_nodes [0, -0.5, -1, -1.5, -3], build_col_lines [0, -0.5, -1, -1.5, -3],
          build_row_lines [0, -0.5, -1, -1.5, -3])"
  by (simp add: valid_type_def generate_pavement_nodes_def y_coords_of_def thicknesses_def
      layer_keys_def getitem_def build_y_coords_def)



section \<open>The exported file\<close>

lemma is_digit_char_of: "d < 10 \<Longrightarrow> is_digit (char_of (48 + (d :: nat)))"
  by (simp add: is_digit_def)

lemma digit_value: "d < 10 \<Longrightarrow> of_char (char_of (48 + d)) - 48 = (d :: nat)"
  by simp

lemma str_nat_digits: "list_all is_digit (str_nat n) \<and> str_nat n \<noteq> []"
proof (induction n rule: str_nat.induct)
  case (1 n)
  show ?case
  proof (cases "n < 10")
    case True
    then show ?thesis
      by (subst (1 2) str_nat.simps) (simp add: is_digit_char_of)
  next
    case False
    with 1 show ?thesis
      by (subst (1 2) str_nat.simps) (simp add: is_digit_char_of)
  qed
qed

lemma str_nat_value: "foldl (\<lambda>a c. 10 * a + (of_char c - 48)) 0 (str_nat n) = n"
proof (induction n rule: str_nat.induct)
  case (1 n)
  show ?case
  proof (cases "n < 10")
    case True
    then show ?thesis
      by (subst str_nat.simps) simp
  next
    case False
    with 1 have "foldl (\<lambda>a c. 10 * a + (of_char c - 48)) 0 (str_nat (n div 10)) = n div 10"
      by simp
    moreover have "of_char (char_of (48 + n mod 10)) - 48 = n mod 10"
      by (rule digit_value) simp
    ultimately show ?thesis
      using False by (subst str_nat.simps) simp
  qed
qed

lemma read_nat_str_nat: "read_nat (str_nat n) = Some n"
  using str_nat_digits [of n] by (simp add: read_nat_def str_nat_value)

lemma not_digit: "\<not> is_digit CHR '',''" "\<not> is_digit newline" "\<not> is_digit CHR ''-''"
  by (simp_all add: is_digit_def)

lemma digits_without: "list_all is_digit s \<Longrightarrow> \<not> is_digit c \<Longrightarrow> c \<notin> set s"
  by (auto simp: list_all_iff)

lemma str_int_chars: "CHR '','' \<notin> set (str_int i)" "newline \<notin> set (str_int i)"
  using str_nat_digits digits_without not_digit by (auto simp: str_int_def)

lemma read_int_str_int: "read_int (str_int i) = Some i"
proof (cases "i < 0")
  case True
  then show ?thesis
    by (simp add: str_int_def read_int_def read_nat_str_nat)
next
  case False
  obtain c cs where s: "str_nat (nat i) = c # cs"
    using str_nat_digits [of "nat i"] by (cases "str_nat (nat i)") auto
  then have "c \<noteq> CHR ''-''"
    using str_nat_digits [of "nat i"] not_digit(3) by auto
  moreover have "read_nat (c # cs) = Some (nat i)"
    using read_nat_str_nat [of "nat i"] by (simp add: s)
  ultimately show ?thesis
    using False by (simp add: str_int_def read_int_def s)
qed

lemma split_on_nonempty: "split_on c s \<noteq> []"
  by (induction s) (auto split: list.splits)

lemma split_on_field:
  "c \<notin> set u \<Longrightarrow> split_on c (u @ c # rest) = u # split_on c rest"
  by (induction u) (auto split: list.splits simp: split_on_nonempty)

lemma split_on_last: "c \<notin> set u \<Longrightarrow> split_on c u = [u]"
  by (induction u) auto


lemma split_lines:
  "\<forall>n \<in> set ns. c \<notin> set (b n) \<Longrightarrow>
     split_on c (concat (map (\<lambda>n. b n @ [c]) ns)) = map b ns @ [[]]"
  by (induction ns) (simp_all add: split_on_field)

lemma node_line_butlast: "node_line repr n = butlast (node_line repr n) @ [newline]"
  by (cases n) (simp add: node_line_def butlast_append)

lemma butlast_node_line:
  "butlast (node_line repr (nid, x, y, z)) =
     ''N,'' @ str_int nid @ '','' @ repr x @ '','' @ repr y @ '','' @ repr z"
  by (simp add: node_line_def butlast_append)

lemma newline_butlast_node_line:
  assumes "coords_ok f repr n"
  shows "newline \<notin> set (butlast (node_line repr n))"
proof (cases n)
  case (fields nid x y z)
  with assms show ?thesis
    by (simp add: butlast_node_line coords_ok_def float_text_ok_def str_int_chars)
qed

lemma read_node_line_butlast:
  assumes "coords_ok f repr n"
  shows "read_node_line f (butlast (node_line repr n)) = Some n"
proof (cases n)
  case (fields nid x y z)
  with assms have ok: "float_text_ok f repr x" "float_text_ok f repr y" "float_text_ok f repr z"
    by (simp_all add: coords_ok_def)
  have "split_on CHR '','' (butlast (node_line repr n)) =
      [''N'', str_int nid, repr x, repr y, repr z]"
    using ok unfolding fields butlast_node_line
    by (simp add: split_on_field split_on_last str_int_chars float_text_ok_def)
  with ok show ?thesis
    by (simp add: read_node_line_def read_int_str_int float_text_ok_def fields)
qed

lemma read_node_lines_butlast:
  "\<forall>n \<in> set ns. coords_ok f repr n \<Longrightarrow>
     read_node_lines f (map (\<lambda>n. butlast (node_line repr n)) ns) = Some ns"
  by (induction ns) (simp_all add: read_node_line_butlast)

lemma split_file_text:
  assumes "\<forall>n \<in> set ns. coords_ok f repr n"
  shows "split_on newline (''/PREP7'' @ [newline] @ concat (map (node_line repr) ns)) =
     ''/PREP7'' # map (\<lambda>n. butlast (node_line repr n)) ns @ [[]]"
proof -
  have "map (node_line repr) ns = map (\<lambda>n. butlast (node_line repr n) @ [newline]) ns"
    using node_line_butlast by (intro map_cong) auto
  moreover have "\<forall>n \<in> set ns. newline \<notin> set (butlast (node_line repr n))"
    using assms newline_butlast_node_line by blast
  ultimately have "split_on newline (concat (map (node_line repr) ns)) =
      map (\<lambda>n. butlast (node_line repr n)) ns @ [[]]"
    by (simp only: split_lines)
  moreover have "split_on newline (''/PREP7'' @ newline # rest) = ''/PREP7'' # split_on newline rest"
    for rest
    by (rule split_on_field) simp
  ultimately show ?thesis
    by simp
qed

lemma read_file_text:
  assumes "\<forall>n \<in> set ns. coords_ok f repr n"
  shows "read_node_file f (''/PREP7'' @ [newline] @ concat (map (node_line repr) ns)) = Some ns"
  unfolding read_node_file_def split_file_text [OF assms]
  by (simp add: read_node_lines_butlast [OF assms] butlast_append)

text \<open>
  C4. For every numbered node list written to a path that can be opened: the file holds
  a text whose first line is \<^verbatim>\<open>/PREP7\<close>, and reading that text back line by line gives
  exactly the list that was written, ids and coordinates in the same order. The text of
  a float and its conversion back are the runtime's; the round trip of each coordinate
  through them is the hypothesis \<open>coords_ok\<close>.
\<close>

theorem export_round_trip:
  assumes "can_open file_path"
    and "\<forall>n \<in> set nodes_list. coords_ok f repr n"
  shows "\<exists>text.
           write_to_text can_open repr file_path nodes_list fs = Inr (fs(file_path \<mapsto> text)) \<and>
           hd (split_on newline text) = ''/PREP7'' \<and>
           length (split_on newline text) = length nodes_list + 2 \<and>
           read_node_file f text = Some nodes_list"
proof -
  let ?text = "''/PREP7'' @ [newline] @ concat (map (node_line repr) nodes_list)"
  have "write_to_text can_open repr file_path nodes_list fs = Inr (fs(file_path \<mapsto> ?text))"
    using assms(1) by (simp add: write_to_text_def)
  moreover have "hd (split_on newline ?text) = ''/PREP7''"
    "length (split_on newline ?text) = length nodes_list + 2"
    unfolding split_file_text [OF assms(2)] by simp_all
  moreover have "read_node_file f ?text = Some nodes_list"
    by (rule read_file_text [OF assms(2)])
  ultimately show ?thesis
    by blast
qed


theorem export_round_trip_witness:
  "write_to_text (\<lambda>p. True) (\<lambda>r. if r = 0 then ''0.0'' else ''0.5'') ''nodes.txt''
       [(1, 0, 0, 0), (2, 0.5, 0, 0)] Map.empty =
     Inr [''nodes.txt'' \<mapsto>
       ''/PREP7'' @ [newline] @ ''N,1,0.0,0.0,0.0'' @ [newline] @ ''N,2,0.5,0.0,0.0'' @ [newline]] \<and>
   read_node_file (map_of [(''0.0'', 0), (''0.5'', 0.5)])
       (''/PREP7'' @ [newline] @ ''N,1,0.0,0.0,0.0'' @ [newline] @ ''N,2,0.5,0.0,0.0'' @ [newline]) =
     Some [(1, 0, 0, 0), (2, 0.5, 0, 0)]"
proof -
  let ?repr = "\<lambda>r :: real. if r = 0 then ''0.0'' else ''0.5''"
  let ?f = "map_of [(''0.0'', 0), (''0.5'', 0.5 :: real)]"
  let ?ns = "[(1, 0, 0, 0), (2, 0.5, 0, 0)] :: numbered_node list"
  let ?text = "''/PREP7'' @ [newline] @ ''N,1,0.0,0.0,0.0'' @ [newline] @ ''N,2,0.5,0.0,0.0'' @ [newline]"
  have o: "(\<lambda>p :: string. True) ''nodes.txt''"
    by simp
  have c: "\<forall>n \<in> set ?ns. coords_ok ?f ?repr n"
    by (simp add: coords_ok_def float_text_ok_def)
  have d: "char_of (49 :: nat) = CHR ''1''" "char_of (50 :: nat) = CHR ''2''"
    by code_simp+
  have e: "write_to_text (\<lambda>p. True) ?repr ''nodes.txt'' ?ns Map.empty = Inr [''nodes.txt'' \<mapsto> ?text]"
    by (simp add: write_to_text_def node_line_def str_int_def str_nat.simps d)
  from export_round_trip [of "\<lambda>p. True" "''nodes.txt''" ?ns ?f ?repr Map.empty, OF o c]
  obtain written where t:
    "write_to_text (\<lambda>p. True) ?repr ''nodes.txt'' ?ns Map.empty = Inr [''nodes.txt'' \<mapsto> written]"
    "read_node_file ?f written = Some ?ns"
    by blast
  from t(1) e have "[''nodes.txt'' \<mapsto> written] = [''nodes.txt'' \<mapsto> ?text]"
    by (simp only: sum.inject)
  then have "written = ?text"
    by (rule map_upd_eqD1)
  with t(2) e show ?thesis
    by (simp only:)
qed

end
